theory Spec2Isabelle
  imports Main "HOL-Library.Word"
begin

unbundle bit_operations_syntax

section \<open>Data model\<close>

text \<open>
  The Go types of the block builder. \<open>uint32\<close> and \<open>uint64\<close> are words of that width;
  Go's \<open>int\<close> is taken at its 64-bit width (amd64, arm64) and read as two's complement
  with \<open>sint\<close>; a \<open>byte\<close> is an 8-bit word. A Go \<open>string\<close> is a sequence of bytes, here
  an Isabelle \<open>string\<close>. Slices are lists: \<open>len\<close>, \<open>range\<close> and indexing, which is all the
  program does with \<open>Vin\<close>, \<open>Vout\<close> and \<open>Transactions\<close>, do not tell a nil slice from an
  empty one. Only \<open>Witness\<close> keeps the difference (\<open>None\<close> is nil), since the coinbase
  transaction, the one transaction that is rendered as JSON, sets it to nil.

  The fields of \<open>TxOutput\<close> and the header's \<open>Version\<close> carry a prefix, and the \<open>Vout\<close> of
  an input is \<open>in_Vout\<close>, because record fields share one name space.
\<close>

type_synonym byte = "8 word"
type_synonym uint32 = "32 word"
type_synonym uint64 = "64 word"
type_synonym go_int = "64 word"

record Prevout =
  ScriptPubKey :: string
  ScriptPubKeyASM :: string
  ScriptPubKeyType :: string
  ScriptPubKeyAddr :: string
  Value :: go_int

record TxOutput =
  out_ScriptPubKey :: string
  out_ScriptPubKeyASM :: string
  out_ScriptPubKeyType :: string
  out_ScriptPubKeyAddr :: string
  out_Value :: go_int

record TxInput =
  Txid :: string
  in_Vout :: go_int
  ScriptSig :: string
  Witness :: "string list option"
  IsCoinbase :: bool
  Sequence :: uint32
  PrevOut :: Prevout

record Transaction =
  Version :: uint32
  Locktime :: uint32
  Vin :: "TxInput list"
  Vout :: "TxOutput list"

section \<open>Transaction validator\<close>

text \<open>
  \<open>ValidateTransaction\<close> runs two loops with an \<open>int\<close> accumulator that starts at 0;
  \<open>+=\<close> on a Go \<open>int\<close> wraps around.
\<close>

fun sum_inputs :: "go_int \<Rightarrow> TxInput list \<Rightarrow> go_int" where
  "sum_inputs input [] = input"
| "sum_inputs input (vin # vins) = sum_inputs (input + Value (PrevOut vin)) vins"

fun sum_outputs :: "go_int \<Rightarrow> TxOutput list \<Rightarrow> go_int" where
  "sum_outputs output [] = output"
| "sum_outputs output (vout # vouts) = sum_outputs (output + out_Value vout) vouts"

definition ValidateTransaction :: "Transaction \<Rightarrow> bool" where
  "ValidateTransaction tx =
     (let input = sum_inputs 0 (Vin tx);
          output = sum_outputs 0 (Vout tx)
      in if output <s input then True else False)"

text \<open>
  The totals the specification speaks of: sums of the declared values as mathematical
  integers.
\<close>

definition input_total :: "Transaction \<Rightarrow> int" where
  "input_total tx = (\<Sum>vin\<leftarrow>Vin tx. sint (Value (PrevOut vin)))"

definition output_total :: "Transaction \<Rightarrow> int" where
  "output_total tx = (\<Sum>vout\<leftarrow>Vout tx. sint (out_Value vout))"

definition fits_int :: "int \<Rightarrow> bool" where
  "fits_int k = (- (2 ^ 63) \<le> k \<and> k < 2 ^ 63)"

definition mk_input :: "go_int \<Rightarrow> TxInput" where
  "mk_input v =
     \<lparr>Txid = ''ab'', in_Vout = 0, ScriptSig = [], Witness = None, IsCoinbase = False,
      Sequence = 0,
      PrevOut = \<lparr>ScriptPubKey = [], ScriptPubKeyASM = [], ScriptPubKeyType = [],
                 ScriptPubKeyAddr = [], Value = v\<rparr>\<rparr>"

definition mk_output :: "go_int \<Rightarrow> TxOutput" where
  "mk_output v =
     \<lparr>out_ScriptPubKey = [], out_ScriptPubKeyASM = [], out_ScriptPubKeyType = [],
      out_ScriptPubKeyAddr = [], out_Value = v\<rparr>"

definition mk_tx :: "go_int list \<Rightarrow> go_int list \<Rightarrow> Transaction" where
  "mk_tx ins outs =
     \<lparr>Version = 2, Locktime = 0, Vin = map mk_input ins, Vout = map mk_output outs\<rparr>"

section \<open>Block header and block\<close>

text \<open>
  A \<open>[32]byte\<close> array is a byte sequence of length 32 by its type; \<open>bytes\<close> is the
  slice \<open>h[:]\<close> of such an array.
\<close>

typedef hash32 = "{bs :: byte list. length bs = 32}"
  morphisms bytes Hash32
  by (rule exI [of _ "replicate 32 0"]) simp

setup_lifting type_definition_hash32

lift_definition zero_hash :: hash32 is "replicate 32 0"
  by simp

record BlockHeader =
  hdr_Version :: uint32
  PreviousBlockHash :: hash32
  MerkleRoot :: hash32
  Timestamp :: uint32
  DifficultyTarget :: string
  Nonce :: uint32

record Block =
  Size :: uint64
  Header :: BlockHeader
  TransactionCount :: uint64
  Transactions :: "Transaction list"

section \<open>Coinbase synthesizer\<close>

text \<open>
  The repository holds two revisions of the program. \<open>CreateCoinbaseTransaction\<close> is the
  one of the revision that hashes the header; \<open>CreateCoinbaseTransaction_main2\<close> is the
  one of \<open>main2.go\<close>, whose composite literal leaves \<open>Witness\<close> and \<open>PrevOut\<close> at their
  zero values.
\<close>

definition CreateCoinbaseTransaction :: Transaction where
  "CreateCoinbaseTransaction =
     \<lparr>Version = 1, Locktime = 0,
      Vin = [\<lparr>Txid = [], in_Vout = - 1, ScriptSig = [], Witness = None, IsCoinbase = True,
              Sequence = 0xFFFFFFFF,
              PrevOut = \<lparr>ScriptPubKey = [], ScriptPubKeyASM = [], ScriptPubKeyType = [],
                         ScriptPubKeyAddr = [], Value = 0\<rparr>\<rparr>],
      Vout = [\<lparr>out_ScriptPubKey = [], out_ScriptPubKeyASM = [], out_ScriptPubKeyType = [],
               out_ScriptPubKeyAddr = [], out_Value = 0\<rparr>]\<rparr>"

definition CreateCoinbaseTransaction_main2 :: Transaction where
  "CreateCoinbaseTransaction_main2 =
     \<lparr>Version = 1, Locktime = 0,
      Vin = [\<lparr>Txid = ''0000000000000000000000000000000000000000000000000000000000000000'',
              in_Vout = - 1, ScriptSig = ''coinbase script'', Witness = None,
              IsCoinbase = True, Sequence = 0xFFFFFFFF,
              PrevOut = \<lparr>ScriptPubKey = [], ScriptPubKeyASM = [], ScriptPubKeyType = [],
                         ScriptPubKeyAddr = [], Value = 0\<rparr>\<rparr>],
      Vout = [\<lparr>out_ScriptPubKey = ''script pubkey'',
               out_ScriptPubKeyASM = ''script pubkey asm'',
               out_ScriptPubKeyType = ''script pubkey type'',
               out_ScriptPubKeyAddr = ''script pubkey address'',
               out_Value = 1000000\<rparr>]\<rparr>"

section \<open>Header serializer\<close>

text \<open>
  \<open>binary.LittleEndian.PutUint32\<close> of the Go library stores the four bytes of a value
  into the first four cells of a buffer, least significant byte first.
\<close>

definition PutUint32 :: "byte list \<Rightarrow> uint32 \<Rightarrow> byte list" where
  "PutUint32 b v =
     b[0 := ucast v, 1 := ucast (drop_bit 8 v), 2 := ucast (drop_bit 16 v),
       3 := ucast (drop_bit 24 v)]"

definition serializeUint32 :: "uint32 \<Rightarrow> byte list" where
  "serializeUint32 v = (let buf = replicate 4 0 in PutUint32 buf v)"

text \<open>The conversion \<open>[]byte(s)\<close> of a string.\<close>

definition string_bytes :: "string \<Rightarrow> byte list" where
  "string_bytes s = map of_char s"

definition SerializeBlockHeader :: "BlockHeader \<Rightarrow> byte list" where
  "SerializeBlockHeader header =
     (let serializedHeader = [];
          serializedHeader = serializedHeader @ serializeUint32 (hdr_Version header);
          serializedHeader = serializedHeader @ bytes (PreviousBlockHash header);
          serializedHeader = serializedHeader @ bytes (MerkleRoot header);
          serializedHeader = serializedHeader @ serializeUint32 (Timestamp header);
          serializedHeader = serializedHeader @ string_bytes (DifficultyTarget header);
          serializedHeader = serializedHeader @ serializeUint32 (Nonce header)
      in serializedHeader)"

text \<open>
  Little-endian in the words of the specification: byte \<open>i\<close> of the encoding of \<open>n\<close> is
  digit \<open>i\<close> of \<open>n\<close> in base 256, and \<open>le_value\<close> reads such a sequence back.
\<close>

fun le_bytes :: "nat \<Rightarrow> nat \<Rightarrow> byte list" where
  "le_bytes 0 n = []"
| "le_bytes (Suc k) n = of_nat (n mod 256) # le_bytes k (n div 256)"

fun le_value :: "byte list \<Rightarrow> nat" where
  "le_value [] = 0"
| "le_value (b # bs) = unat b + 256 * le_value bs"

section \<open>SHA-256 and the header digest\<close>

text \<open>
  \<open>sha256.Sum256\<close> of the Go library computes SHA-256 as FIPS 180-4 defines it: the
  message is padded with \<open>0x80\<close>, zeros and its bit length as 8 big-endian bytes to a
  multiple of 64 bytes, and each 64-byte block updates eight 32-bit words in 64 rounds.
\<close>

text \<open>
  The round constants, in decimal: the first 32 bits of the fractional parts of the cube
  roots of the first 64 primes.
\<close>

definition sha_K :: "uint32 list" where
  "sha_K =
   [1116352408, 1899447441, 3049323471, 3921009573, 961987163, 1508970993,
    2453635748, 2870763221, 3624381080, 310598401, 607225278, 1426881987,
    1925078388, 2162078206, 2614888103, 3248222580, 3835390401, 4022224774,
    264347078, 604807628, 770255983, 1249150122, 1555081692, 1996064986,
    2554220882, 2821834349, 2952996808, 3210313671, 3336571891, 3584528711,
    113926993, 338241895, 666307205, 773529912, 1294757372, 1396182291,
    1695183700, 1986661051, 2177026350, 2456956037, 2730485921, 2820302411,
    3259730800, 3345764771, 3516065817, 3600352804, 4094571909, 275423344,
    430227734, 506948616, 659060556, 883997877, 958139571, 1322822218,
    1537002063, 1747873779, 1955562222, 2024104815, 2227730452, 2361852424,
    2428436474, 2756734187, 3204031479, 3329325298]"

type_synonym sha_state =
  "uint32 \<times> uint32 \<times> uint32 \<times> uint32 \<times> uint32 \<times> uint32 \<times> uint32 \<times> uint32"

definition sha_init :: sha_state where
  "sha_init = (0x6a09e667, 0xbb67ae85, 0x3c6ef372, 0xa54ff53a,
               0x510e527f, 0x9b05688c, 0x1f83d9ab, 0x5be0cd19)"

definition Ch :: "uint32 \<Rightarrow> uint32 \<Rightarrow> uint32 \<Rightarrow> uint32" where
  "Ch x y z = (x AND y) XOR (NOT x AND z)"

definition Maj :: "uint32 \<Rightarrow> uint32 \<Rightarrow> uint32 \<Rightarrow> uint32" where
  "Maj x y z = (x AND y) XOR (x AND z) XOR (y AND z)"

definition bsig0 :: "uint32 \<Rightarrow> uint32" where
  "bsig0 x = word_rotr 2 x XOR word_rotr 13 x XOR word_rotr 22 x"

definition bsig1 :: "uint32 \<Rightarrow> uint32" where
  "bsig1 x = word_rotr 6 x XOR word_rotr 11 x XOR word_rotr 25 x"

definition ssig0 :: "uint32 \<Rightarrow> uint32" where
  "ssig0 x = word_rotr 7 x XOR word_rotr 18 x XOR drop_bit 3 x"

definition ssig1 :: "uint32 \<Rightarrow> uint32" where
  "ssig1 x = word_rotr 17 x XOR word_rotr 19 x XOR drop_bit 10 x"

fun be_word32 :: "byte list \<Rightarrow> uint32" where
  "be_word32 (a # b # c # d # _) =
     push_bit 24 (ucast a) OR push_bit 16 (ucast b) OR push_bit 8 (ucast c) OR ucast d"
| "be_word32 _ = 0"

fun block_words :: "nat \<Rightarrow> byte list \<Rightarrow> uint32 list" where
  "block_words 0 bs = []"
| "block_words (Suc n) bs = be_word32 bs # block_words n (drop 4 bs)"

fun schedule :: "nat \<Rightarrow> uint32 list \<Rightarrow> uint32 list" where
  "schedule 0 w = w"
| "schedule (Suc n) w =
     (let t = length w
      in schedule n
           (w @ [ssig1 (w ! (t - 2)) + w ! (t - 7) + ssig0 (w ! (t - 15)) + w ! (t - 16)]))"

fun sha_round :: "sha_state \<Rightarrow> uint32 \<times> uint32 \<Rightarrow> sha_state" where
  "sha_round (a, b, c, d, e, f, g, h) (k, w) =
     (let t1 = h + bsig1 e + Ch e f g + k + w;
          t2 = bsig0 a + Maj a b c
      in (t1 + t2, a, b, c, d + t1, e, f, g))"

fun sha_add :: "sha_state \<Rightarrow> sha_state \<Rightarrow> sha_state" where
  "sha_add (a, b, c, d, e, f, g, h) (a', b', c', d', e', f', g', h') =
     (a + a', b + b', c + c', d + d', e + e', f + f', g + g', h + h')"

definition sha_block :: "sha_state \<Rightarrow> byte list \<Rightarrow> sha_state" where
  "sha_block st blk =
     sha_add st (foldl sha_round st (zip sha_K (schedule 48 (block_words 16 blk))))"

fun sha_blocks :: "nat \<Rightarrow> sha_state \<Rightarrow> byte list \<Rightarrow> sha_state" where
  "sha_blocks 0 st bs = st"
| "sha_blocks (Suc n) st bs = sha_blocks n (sha_block st (take 64 bs)) (drop 64 bs)"

definition be_bytes32 :: "uint32 \<Rightarrow> byte list" where
  "be_bytes32 w = [ucast (drop_bit 24 w), ucast (drop_bit 16 w), ucast (drop_bit 8 w), ucast w]"

definition be_bytes64 :: "uint64 \<Rightarrow> byte list" where
  "be_bytes64 w =
     [ucast (drop_bit 56 w), ucast (drop_bit 48 w), ucast (drop_bit 40 w),
      ucast (drop_bit 32 w), ucast (drop_bit 24 w), ucast (drop_bit 16 w),
      ucast (drop_bit 8 w), ucast w]"

definition sha_pad :: "byte list \<Rightarrow> byte list" where
  "sha_pad m =
     m @ [0x80] @ replicate ((119 - length m mod 64) mod 64) 0 @
     be_bytes64 (push_bit 3 (of_nat (length m)))"

definition sha_digest :: "sha_state \<Rightarrow> byte list" where
  "sha_digest st =
     (case st of (a, b, c, d, e, f, g, h) \<Rightarrow>
        be_bytes32 a @ be_bytes32 b @ be_bytes32 c @ be_bytes32 d @
        be_bytes32 e @ be_bytes32 f @ be_bytes32 g @ be_bytes32 h)"

definition sha256 :: "byte list \<Rightarrow> byte list" where
  "sha256 m = (let p = sha_pad m in sha_digest (sha_blocks (length p div 64) sha_init p))"

lift_definition Sum256 :: "byte list \<Rightarrow> hash32" is sha256
  by (simp add: sha256_def sha_digest_def be_bytes32_def Let_def split: prod.splits)

definition HashBlockHeader :: "byte list \<Rightarrow> hash32" where
  "HashBlockHeader serializedHeader =
     (let hash = Sum256 serializedHeader;
          hash = Sum256 (bytes hash)
      in hash)"

section \<open>Hexadecimal text\<close>

text \<open>
  \<open>hex.EncodeToString\<close> of the Go library writes two digits of
  \<open>0123456789abcdef\<close> for each byte, the high nibble first.
\<close>

definition hextable :: string where
  "hextable = ''0123456789abcdef''"

definition EncodeToString :: "byte list \<Rightarrow> string" where
  "EncodeToString src =
     concat (map (\<lambda>v. [hextable ! unat (drop_bit 4 v), hextable ! unat (v AND 0x0f)]) src)"

section \<open>Errors and the outside world\<close>

text \<open>
  An \<open>error\<close> returned by a library call is a value of \<open>error\<close>; \<open>IndexOutOfRange\<close> is the
  run-time panic of an index expression \<open>s[0]\<close> on an empty slice, which ends the program.

  The writer's world is the file \<open>output.txt\<close>: whether \<open>os.Create\<close> succeeds, the
  outcome of each write still to come (writes past the end of the script succeed), and
  the content of the file (\<open>None\<close> while it does not exist). A write that fails leaves
  the content as it was.
\<close>

datatype error =
  ReadDirError | ReadFileError | DecodeError | CreateError | WriteError | MarshalError |
  IndexOutOfRange

record fs =
  create_ok :: bool
  write_ok :: "bool list"
  output_txt :: "string option"

definition os_Create :: "fs \<Rightarrow> (error + unit) \<times> fs" where
  "os_Create s =
     (if create_ok s then (Inr (), s\<lparr>output_txt := Some []\<rparr>) else (Inl CreateError, s))"

definition file_Write :: "string \<Rightarrow> fs \<Rightarrow> (error + unit) \<times> fs" where
  "file_Write data s =
     (case write_ok s of
        [] \<Rightarrow> (Inr (), s\<lparr>output_txt := map_option (\<lambda>c. c @ data) (output_txt s)\<rparr>)
      | ok # rest \<Rightarrow>
          if ok
          then (Inr (), s\<lparr>write_ok := rest,
                           output_txt := map_option (\<lambda>c. c @ data) (output_txt s)\<rparr>)
          else (Inl WriteError, s\<lparr>write_ok := rest\<rparr>))"

section \<open>Report writer\<close>

text \<open>
  The loop over \<open>block.Transactions\<close> with its index \<open>i\<close>: index 0 is skipped, every
  other transaction has \<open>tx.Vin[0].Txid\<close> written on a line of its own.
\<close>

fun write_txids :: "nat \<Rightarrow> Transaction list \<Rightarrow> fs \<Rightarrow> (error + unit) \<times> fs" where
  "write_txids i [] s = (Inr (), s)"
| "write_txids i (tx # txs) s =
     (if i = 0 then write_txids (Suc i) txs s
      else case Vin tx of
             [] \<Rightarrow> (Inl IndexOutOfRange, s)
           | vin # _ \<Rightarrow>
               (case file_Write (Txid vin @ [CHR 0x0A]) s of
                  (Inl err, s') \<Rightarrow> (Inl err, s')
                | (Inr _, s') \<Rightarrow> write_txids (Suc i) txs s'))"

text \<open>
  \<open>json.Marshal\<close> of the Go library is the parameter \<open>Marshal\<close>, \<open>None\<close> where it returns
  an error. The parameter \<open>hash\<close> is the one the source declares.
\<close>

definition WriteBlockToOutputFile ::
  "(Transaction \<Rightarrow> string option) \<Rightarrow> Block \<Rightarrow> hash32 \<Rightarrow> fs \<Rightarrow> (error + unit) \<times> fs" where
  "WriteBlockToOutputFile Marshal block hash s =
     (case os_Create s of
        (Inl err, s1) \<Rightarrow> (Inl err, s1)
      | (Inr _, s1) \<Rightarrow>
          let blockHeaderBytes = SerializeBlockHeader (Header block);
              blockHeaderHash = Sum256 blockHeaderBytes;
              blockHeaderHash = Sum256 (bytes blockHeaderHash)
          in case file_Write (EncodeToString (bytes blockHeaderHash) @ [CHR 0x0A]) s1 of
               (Inl err, s2) \<Rightarrow> (Inl err, s2)
             | (Inr _, s2) \<Rightarrow>
                 (case Transactions block of
                    [] \<Rightarrow> (Inl IndexOutOfRange, s2)
                  | coinbase # _ \<Rightarrow>
                      (case Marshal coinbase of
                         None \<Rightarrow> (Inl MarshalError, s2)
                       | Some serializedCoinbaseTx \<Rightarrow>
                           (case file_Write serializedCoinbaseTx s2 of
                              (Inl err, s3) \<Rightarrow> (Inl err, s3)
                            | (Inr _, s3) \<Rightarrow>
                                (case file_Write [CHR 0x0A] s3 of
                                   (Inl err, s4) \<Rightarrow> (Inl err, s4)
                                 | (Inr _, s4) \<Rightarrow>
                                     write_txids 0 (Transactions block) s4)))))"

section \<open>Transaction loader\<close>

text \<open>
  A directory entry as \<open>ioutil.ReadDir\<close> lists it, together with what \<open>ioutil.ReadFile\<close>
  returns for it (\<open>None\<close> is a read error). \<open>json.Unmarshal\<close> is the parameter
  \<open>Unmarshal\<close>, \<open>None\<close> where it returns an error.
\<close>

record DirEntry =
  Name :: string
  IsDir :: bool
  ReadFile :: "string option"

definition HasSuffix :: "string \<Rightarrow> string \<Rightarrow> bool" where
  "HasSuffix s suffix =
     (length suffix \<le> length s \<and> drop (length s - length suffix) s = suffix)"

fun load_files ::
  "(string \<Rightarrow> Transaction option) \<Rightarrow> DirEntry list \<Rightarrow> Transaction list \<Rightarrow>
   error + Transaction list" where
  "load_files Unmarshal [] transactions = Inr transactions"
| "load_files Unmarshal (file # files) transactions =
     (if \<not> IsDir file \<and> HasSuffix (Name file) ''.json''
      then case ReadFile file of
             None \<Rightarrow> Inl ReadFileError
           | Some data \<Rightarrow>
               (case Unmarshal data of
                  None \<Rightarrow> Inl DecodeError
                | Some tx \<Rightarrow> load_files Unmarshal files (transactions @ [tx]))
      else load_files Unmarshal files transactions)"

definition LoadTransactionsFromFolder ::
  "(string \<Rightarrow> Transaction option) \<Rightarrow> DirEntry list option \<Rightarrow> error + Transaction list" where
  "LoadTransactionsFromFolder Unmarshal folder =
     (case folder of
        None \<Rightarrow> Inl ReadDirError
      | Some files \<Rightarrow> load_files Unmarshal files [])"

text \<open>
  The loader in the words of the specification: the entries that are record files, each
  decoded, and the sequence of results collected up to the first failure.
\<close>

definition is_record_file :: "DirEntry \<Rightarrow> bool" where
  "is_record_file file = (\<not> IsDir file \<and> HasSuffix (Name file) ''.json'')"

definition decode_entry :: "(string \<Rightarrow> Transaction option) \<Rightarrow> DirEntry \<Rightarrow> error + Transaction" where
  "decode_entry Unmarshal file =
     (case ReadFile file of
        None \<Rightarrow> Inl ReadFileError
      | Some data \<Rightarrow> (case Unmarshal data of None \<Rightarrow> Inl DecodeError | Some tx \<Rightarrow> Inr tx))"

fun collect :: "(error + 'a) list \<Rightarrow> error + 'a list" where
  "collect [] = Inr []"
| "collect (Inl err # rs) = Inl err"
| "collect (Inr x # rs) = (case collect rs of Inl err \<Rightarrow> Inl err | Inr xs \<Rightarrow> Inr (x # xs))"

section \<open>The pipeline of main\<close>

text \<open>
  The validation loop of \<open>main\<close>: an accepted transaction is appended to
  \<open>validTransactions\<close>; for a rejected one \<open>tx.Vin[0].Txid\<close> is printed. The console is
  the list of the lines that report rejected transactions; the progress lines with the
  counts are left out.
\<close>

fun validate_all ::
  "Transaction list \<Rightarrow> Transaction list \<Rightarrow> string list \<Rightarrow>
   (error + Transaction list) \<times> string list" where
  "validate_all [] validTransactions console = (Inr validTransactions, console)"
| "validate_all (tx # txs) validTransactions console =
     (if ValidateTransaction tx then validate_all txs (validTransactions @ [tx]) console
      else case Vin tx of
             [] \<Rightarrow> (Inl IndexOutOfRange, console)
           | vin # _ \<Rightarrow>
               validate_all txs validTransactions
                 (console @ [''Invalid transaction '' @ Txid vin]))"

text \<open>
  \<open>BlockHeader{}\<close> is the zero value of the header; \<open>main\<close> then sets four of its fields.
  \<open>now\<close> is \<open>uint32(time.Now().Unix())\<close>.
\<close>

definition zero_header :: BlockHeader where
  "zero_header =
     \<lparr>hdr_Version = 0, PreviousBlockHash = zero_hash, MerkleRoot = zero_hash,
      Timestamp = 0, DifficultyTarget = [], Nonce = 0\<rparr>"

definition main_header :: "uint32 \<Rightarrow> BlockHeader" where
  "main_header now =
     zero_header\<lparr>hdr_Version := 1, Timestamp := now,
       DifficultyTarget :=
         ''0000ffff00000000000000000000000000000000000000000000000000000000'',
       Nonce := 0\<rparr>"

text \<open>
  The size loop: \<open>blockSize += uint64(unsafe.Sizeof(tx))\<close> for each transaction of the
  block. \<open>unsafe.Sizeof\<close> is the parameter \<open>Sizeof\<close>.
\<close>

fun add_sizes :: "(Transaction \<Rightarrow> uint64) \<Rightarrow> uint64 \<Rightarrow> Transaction list \<Rightarrow> uint64" where
  "add_sizes Sizeof blockSize [] = blockSize"
| "add_sizes Sizeof blockSize (tx # txs) = add_sizes Sizeof (blockSize + Sizeof tx) txs"

text \<open>
  The block \<open>main\<close> assembles from the accepted transactions, from the composite literal
  to the assignment of \<open>block.Size\<close>.
\<close>

definition assemble_block ::
  "(Transaction \<Rightarrow> uint64) \<Rightarrow> uint32 \<Rightarrow> Transaction list \<Rightarrow> Block" where
  "assemble_block Sizeof now validTransactions =
     (let coinbaseTx = CreateCoinbaseTransaction;
          blockTransactions = [coinbaseTx] @ validTransactions;
          block = \<lparr>Size = 0, Header = zero_header,
                   TransactionCount = of_nat (length blockTransactions),
                   Transactions = blockTransactions\<rparr>;
          block = block\<lparr>Header := main_header now\<rparr>;
          blockSize = of_nat (length (SerializeBlockHeader (Header block)) + 8);
          blockSize = add_sizes Sizeof blockSize (Transactions block)
      in block\<lparr>Size := blockSize\<rparr>)"

text \<open>
  \<open>main\<close>, from the loaded transactions to the written report. The result is the error or
  panic that ended the run, if any, with the console and the file system it leaves.
\<close>

definition main_run ::
  "(Transaction \<Rightarrow> string option) \<Rightarrow> (Transaction \<Rightarrow> uint64) \<Rightarrow> uint32 \<Rightarrow>
   error + Transaction list \<Rightarrow> fs \<Rightarrow> (error + unit) \<times> string list \<times> fs" where
  "main_run Marshal Sizeof now loaded s =
     (case loaded of
        Inl err \<Rightarrow> (Inl err, [], s)
      | Inr transactions \<Rightarrow>
          (case validate_all transactions [] [] of
             (Inl err, console) \<Rightarrow> (Inl err, console, s)
           | (Inr validTransactions, console) \<Rightarrow>
               let block = assemble_block Sizeof now validTransactions;
                   serializedHeader = SerializeBlockHeader (Header block);
                   blockHash = HashBlockHeader serializedHeader
               in case WriteBlockToOutputFile Marshal block blockHash s of
                    (Inl err, s') \<Rightarrow> (Inl err, console, s')
                  | (Inr _, s') \<Rightarrow> (Inr (), console, s')))"

section \<open>Sample inputs\<close>

text \<open>
  A directory with a subdirectory named like a record file, two record files and a text
  file, and a decoder that knows the content of the two record files.
\<close>

definition sample_folder :: "DirEntry list" where
  "sample_folder =
     [\<lparr>Name = ''sub.json'', IsDir = True, ReadFile = None\<rparr>,
      \<lparr>Name = ''a.json'', IsDir = False, ReadFile = Some ''A''\<rparr>,
      \<lparr>Name = ''notes.txt'', IsDir = False, ReadFile = Some ''x''\<rparr>,
      \<lparr>Name = ''b.json'', IsDir = False, ReadFile = Some ''B''\<rparr>]"

definition sample_Unmarshal :: "string \<Rightarrow> Transaction option" where
  "sample_Unmarshal data =
     (if data = ''A'' then Some (mk_tx [5000] [4000])
      else if data = ''B'' then Some (mk_tx [4000] [4000])
      else None)"

definition sample_fs :: fs where
  "sample_fs = \<lparr>create_ok = True, write_ok = [True, True], output_txt = None\<rparr>"

section \<open>Notions used to state what the writer leaves\<close>

text \<open>
  The file system after a write that succeeded, the condition that no write still to
  come fails, and the identifier lines of a sequence of transactions.
\<close>

definition after_write :: "string \<Rightarrow> fs \<Rightarrow> fs" where
  "after_write data s =
     s\<lparr>write_ok := tl (write_ok s),
       output_txt := map_option (\<lambda>c. c @ data) (output_txt s)\<rparr>"

definition writes_succeed :: "fs \<Rightarrow> bool" where
  "writes_succeed s = (False \<notin> set (write_ok s))"

definition txid_lines :: "Transaction list \<Rightarrow> string" where
  "txid_lines txs = concat (map (\<lambda>tx. Txid (Vin tx ! 0) @ [CHR 0x0A]) txs)"

definition sample_block :: Block where
  "sample_block = assemble_block (\<lambda>tx. 56) 7 [mk_tx [5000] [4000]]"

section \<open>Properties of the validator\<close>

lemma sum_inputs_eq:
  "sum_inputs acc vins = acc + (\<Sum>vin\<leftarrow>vins. Value (PrevOut vin))"
  by (induction vins arbitrary: acc) (simp_all add: add.assoc)

lemma sum_outputs_eq:
  "sum_outputs acc vouts = acc + (\<Sum>vout\<leftarrow>vouts. out_Value vout)"
  by (induction vouts arbitrary: acc) (simp_all add: add.assoc)

lemma word_of_int_sum_sint:
  "(word_of_int (\<Sum>x\<leftarrow>xs. sint (f x)) :: go_int) = (\<Sum>x\<leftarrow>xs. f x)"
  by (induction xs) simp_all

lemma sint_word_of_int_fits:
  assumes "fits_int k"
  shows "sint (word_of_int k :: go_int) = k"
proof -
  have "signed_take_bit 63 k = k"
    using assms by (simp add: fits_int_def signed_take_bit_int_eq_self)
  then show ?thesis
    by (simp add: sint_sbintrunc')
qed

lemma sint_sum_inputs:
  assumes "fits_int (input_total tx)"
  shows "sint (sum_inputs 0 (Vin tx)) = input_total tx"
proof -
  have "sum_inputs 0 (Vin tx) = word_of_int (input_total tx)"
    by (simp add: sum_inputs_eq input_total_def word_of_int_sum_sint)
  then show ?thesis
    using assms by (simp add: sint_word_of_int_fits)
qed

lemma sint_sum_outputs:
  assumes "fits_int (output_total tx)"
  shows "sint (sum_outputs 0 (Vout tx)) = output_total tx"
proof -
  have "sum_outputs 0 (Vout tx) = word_of_int (output_total tx)"
    by (simp add: sum_outputs_eq output_total_def word_of_int_sum_sint)
  then show ?thesis
    using assms by (simp add: sint_word_of_int_fits)
qed

text \<open>
  C1 (as stated): for every transaction, \<open>ValidateTransaction\<close> returns true if and only
  if the sum of the inputs' prevout values is strictly greater than the sum of the
  outputs' values. This fails where a total leaves the range of \<open>int\<close>: two inputs of
  \<open>2^62\<close> each and no output have the totals \<open>2^63\<close> and \<open>0\<close>, but the accumulator wraps
  to \<open>-2^63\<close> and the transaction is rejected.
\<close>

theorem ValidateTransaction_overflow_counterexample:
  "\<not> (ValidateTransaction (mk_tx [2 ^ 62, 2 ^ 62] []) \<longleftrightarrow>
       input_total (mk_tx [2 ^ 62, 2 ^ 62] []) > output_total (mk_tx [2 ^ 62, 2 ^ 62] []))"
  by (simp add: ValidateTransaction_def mk_tx_def mk_input_def input_total_def
      output_total_def word_sless_alt)

text \<open>
  C1 (amended): for every transaction whose input total and output total both fit a
  64-bit \<open>int\<close>, \<open>ValidateTransaction\<close> returns true if and only if the input total is
  strictly greater than the output total; so equal totals are rejected.
\<close>

theorem ValidateTransaction_iff:
  assumes "fits_int (input_total tx)" and "fits_int (output_total tx)"
  shows "ValidateTransaction tx \<longleftrightarrow> input_total tx > output_total tx"
  using assms
  by (simp add: ValidateTransaction_def Let_def word_sless_alt sint_sum_inputs
      sint_sum_outputs)

theorem ValidateTransaction_iff_witness:
  "fits_int (input_total (mk_tx [3000, 2000] [4000])) \<and>
   fits_int (output_total (mk_tx [3000, 2000] [4000])) \<and>
   ValidateTransaction (mk_tx [3000, 2000] [4000]) \<and>
   fits_int (input_total (mk_tx [4000] [4000])) \<and>
   fits_int (output_total (mk_tx [4000] [4000])) \<and>
   \<not> ValidateTransaction (mk_tx [4000] [4000])"
proof -
  have a: "fits_int (input_total (mk_tx [3000, 2000] [4000]))"
    by (simp add: fits_int_def input_total_def mk_tx_def mk_input_def)
  have b: "fits_int (output_total (mk_tx [3000, 2000] [4000]))"
    by (simp add: fits_int_def output_total_def mk_tx_def mk_output_def)
  have c: "fits_int (input_total (mk_tx [4000] [4000]))"
    by (simp add: fits_int_def input_total_def mk_tx_def mk_input_def)
  have d: "fits_int (output_total (mk_tx [4000] [4000]))"
    by (simp add: fits_int_def output_total_def mk_tx_def mk_output_def)
  have e: "ValidateTransaction (mk_tx [3000, 2000] [4000])"
    using ValidateTransaction_iff [OF a b]
    by (simp add: input_total_def output_total_def mk_tx_def mk_input_def mk_output_def)
  have f: "\<not> ValidateTransaction (mk_tx [4000] [4000])"
    using ValidateTransaction_iff [OF c d]
    by (simp add: input_total_def output_total_def mk_tx_def mk_input_def mk_output_def)
  from a b c d e f show ?thesis by simp
qed

section \<open>Properties of the coinbase transaction and the assembled block\<close>

lemma CreateCoinbaseTransaction_rejected: "\<not> ValidateTransaction CreateCoinbaseTransaction"
  by (simp add: ValidateTransaction_def CreateCoinbaseTransaction_def)

lemma Transactions_assemble_block:
  "Transactions (assemble_block Sizeof now accepted) = CreateCoinbaseTransaction # accepted"
  by (simp add: assemble_block_def Let_def)

lemma TransactionCount_assemble_block:
  "TransactionCount (assemble_block Sizeof now accepted) = of_nat (Suc (length accepted))"
  by (simp add: assemble_block_def Let_def)

lemma Header_assemble_block:
  "Header (assemble_block Sizeof now accepted) = main_header now"
  by (simp add: assemble_block_def Let_def)

lemma add_sizes_eq: "add_sizes Sizeof acc txs = acc + (\<Sum>tx\<leftarrow>txs. Sizeof tx)"
  by (induction txs arbitrary: acc) (simp_all add: add.assoc)

lemma Size_assemble_block:
  "Size (assemble_block Sizeof now accepted) =
     of_nat (length (SerializeBlockHeader (main_header now)) + 8) +
     (\<Sum>tx\<leftarrow>CreateCoinbaseTransaction # accepted. Sizeof tx)"
  by (simp add: assemble_block_def Let_def add_sizes_eq)

lemma unat_sum_list_word:
  "unat (\<Sum>x\<leftarrow>xs. f x :: uint64) = (\<Sum>x\<leftarrow>xs. unat (f x)) mod 2 ^ 64"
proof (induction xs)
  case Nil
  show ?case by simp
next
  case (Cons x xs)
  have "unat (f x + (\<Sum>y\<leftarrow>xs. f y)) = (unat (f x) + unat (\<Sum>y\<leftarrow>xs. f y)) mod 2 ^ 64"
    by (simp add: unat_word_ariths)
  also have "\<dots> = (unat (f x) + (\<Sum>y\<leftarrow>xs. unat (f y)) mod 2 ^ 64) mod 2 ^ 64"
    by (simp only: Cons.IH)
  also have "\<dots> = (unat (f x) + (\<Sum>y\<leftarrow>xs. unat (f y))) mod 2 ^ 64"
    by (rule mod_add_right_eq)
  finally show ?case by simp
qed

text \<open>
  C3: \<open>CreateCoinbaseTransaction\<close> returns a transaction with version 1, locktime 0,
  exactly one input, whose previous index is -1, whose coinbase flag is set, whose
  sequence is \<open>0xFFFFFFFF\<close> and whose prevout value is 0, and exactly one output, which
  carries the reward value and placeholder script fields: the value 0 and empty scripts
  in the revision that hashes the header, 1000000 and fixed texts in \<open>main2.go\<close>.
\<close>

theorem CreateCoinbaseTransaction_shape:
  "(Version CreateCoinbaseTransaction = 1 \<and> Locktime CreateCoinbaseTransaction = 0 \<and>
    (\<exists>vin. Vin CreateCoinbaseTransaction = [vin] \<and> sint (in_Vout vin) = - 1 \<and>
       IsCoinbase vin \<and> unat (Sequence vin) = 4294967295 \<and>
       sint (Value (PrevOut vin)) = 0) \<and>
    (\<exists>vout. Vout CreateCoinbaseTransaction = [vout] \<and> sint (out_Value vout) = 0 \<and>
       out_ScriptPubKey vout = [] \<and> out_ScriptPubKeyASM vout = [] \<and>
       out_ScriptPubKeyType vout = [] \<and> out_ScriptPubKeyAddr vout = [])) \<and>
   (Version CreateCoinbaseTransaction_main2 = 1 \<and>
    Locktime CreateCoinbaseTransaction_main2 = 0 \<and>
    (\<exists>vin. Vin CreateCoinbaseTransaction_main2 = [vin] \<and> sint (in_Vout vin) = - 1 \<and>
       IsCoinbase vin \<and> unat (Sequence vin) = 4294967295 \<and>
       sint (Value (PrevOut vin)) = 0) \<and>
    (\<exists>vout. Vout CreateCoinbaseTransaction_main2 = [vout] \<and>
       sint (out_Value vout) = 1000000 \<and>
       out_ScriptPubKey vout = ''script pubkey'' \<and>
       out_ScriptPubKeyASM vout = ''script pubkey asm'' \<and>
       out_ScriptPubKeyType vout = ''script pubkey type'' \<and>
       out_ScriptPubKeyAddr vout = ''script pubkey address''))"
  by (simp add: CreateCoinbaseTransaction_def CreateCoinbaseTransaction_main2_def)

text \<open>
  C2: for every list of transactions the validator accepts, the empty list included, the
  transactions of the assembled block are the coinbase transaction followed by the
  accepted ones; the coinbase transaction is at index 0 and occurs exactly once; and
  \<open>TransactionCount\<close> is 1 plus the number of accepted transactions (a Go slice has
  fewer than \<open>2^63\<close> elements, so the count is below \<open>2^64\<close>).
\<close>

theorem assemble_block_coinbase_first:
  assumes "\<forall>tx \<in> set accepted. ValidateTransaction tx"
  shows "Transactions (assemble_block Sizeof now accepted) = [CreateCoinbaseTransaction] @ accepted \<and>
         Transactions (assemble_block Sizeof now accepted) ! 0 = CreateCoinbaseTransaction \<and>
         count_list (Transactions (assemble_block Sizeof now accepted)) CreateCoinbaseTransaction = 1 \<and>
         TransactionCount (assemble_block Sizeof now accepted) = 1 + of_nat (length accepted) \<and>
         (length accepted < 2 ^ 63 \<longrightarrow>
            unat (TransactionCount (assemble_block Sizeof now accepted)) = 1 + length accepted)"
proof -
  have "CreateCoinbaseTransaction \<notin> set accepted"
    using assms CreateCoinbaseTransaction_rejected by blast
  then have once: "count_list accepted CreateCoinbaseTransaction = 0"
    by (simp add: count_list_0_iff)
  have cnt: "unat (of_nat (Suc (length accepted)) :: uint64) = Suc (length accepted)"
    if "length accepted < 2 ^ 63"
  proof -
    have "Suc (length accepted) < 2 ^ 64"
      using that by simp
    then have "Suc (length accepted) mod 2 ^ 64 = Suc (length accepted)"
      by (rule mod_less)
    moreover have "unat (of_nat (Suc (length accepted)) :: uint64) =
        Suc (length accepted) mod 2 ^ 64"
      by (simp only: unat_of_nat) simp
    ultimately show ?thesis
      by (simp only:)
  qed
  show ?thesis
    using once cnt
    by (simp add: Transactions_assemble_block TransactionCount_assemble_block)
qed

theorem assemble_block_coinbase_first_witness:
  "ValidateTransaction (mk_tx [5000] [4000]) \<and>
   Transactions (assemble_block (\<lambda>tx. 56) 7 [mk_tx [5000] [4000]]) =
     [CreateCoinbaseTransaction, mk_tx [5000] [4000]] \<and>
   unat (TransactionCount (assemble_block (\<lambda>tx. 56) 7 [mk_tx [5000] [4000]])) = 2"
proof -
  have v: "\<forall>tx \<in> set [mk_tx [5000] [4000]]. ValidateTransaction tx"
    by (simp add: ValidateTransaction_def mk_tx_def mk_input_def mk_output_def word_sless_alt)
  show ?thesis
    using v assemble_block_coinbase_first [OF v, of "\<lambda>tx. 56" 7]
    by simp
qed

text \<open>
  C7: the \<open>Size\<close> of every assembled block is the byte length of the serialized header
  plus 8 plus the sum of \<open>Sizeof\<close> over all transactions of the block, the coinbase
  transaction included; the sum is one of \<open>uint64\<close> values, that is, modulo \<open>2^64\<close>.
\<close>

theorem assemble_block_Size:
  "Size (assemble_block Sizeof now accepted) =
     of_nat (length (SerializeBlockHeader (Header (assemble_block Sizeof now accepted)))) + 8 +
     (\<Sum>tx\<leftarrow>Transactions (assemble_block Sizeof now accepted). Sizeof tx) \<and>
   unat (Size (assemble_block Sizeof now accepted)) =
     (length (SerializeBlockHeader (Header (assemble_block Sizeof now accepted))) + 8 +
      (\<Sum>tx\<leftarrow>Transactions (assemble_block Sizeof now accepted). unat (Sizeof tx)))
     mod 2 ^ 64"
proof -
  let ?b = "assemble_block Sizeof now accepted"
  let ?n = "length (SerializeBlockHeader (Header ?b)) + 8"
  have w: "Size ?b = of_nat ?n + (\<Sum>tx\<leftarrow>Transactions ?b. Sizeof tx)"
    by (simp add: Size_assemble_block Header_assemble_block Transactions_assemble_block)
  have "unat (Size ?b) =
      (unat (of_nat ?n :: uint64) + unat (\<Sum>tx\<leftarrow>Transactions ?b. Sizeof tx)) mod 2 ^ 64"
    by (simp only: w unat_word_ariths) simp
  also have "\<dots> = (?n mod 2 ^ 64 + (\<Sum>tx\<leftarrow>Transactions ?b. unat (Sizeof tx)) mod 2 ^ 64) mod 2 ^ 64"
    by (simp only: unat_sum_list_word unat_of_nat) simp
  also have "\<dots> = (?n + (\<Sum>tx\<leftarrow>Transactions ?b. unat (Sizeof tx))) mod 2 ^ 64"
    by (rule mod_add_eq)
  finally have n: "unat (Size ?b) = (?n + (\<Sum>tx\<leftarrow>Transactions ?b. unat (Sizeof tx))) mod 2 ^ 64" .
  from w n show ?thesis by simp
qed

section \<open>Properties of the header serializer and the digest\<close>

lemma le_value_le_bytes: "n < 256 ^ k \<Longrightarrow> le_value (le_bytes k n) = n"
proof (induction k arbitrary: n)
  case 0
  then show ?case by simp
next
  case (Suc k)
  then have "n div 256 < 256 ^ k"
    by (simp add: less_mult_imp_div_less mult.commute)
  then have "le_value (le_bytes k (n div 256)) = n div 256"
    by (rule Suc.IH)
  then show ?case
    by (simp add: unat_of_nat)
qed


lemma ucast_drop_bit_byte:
  "(ucast (drop_bit n (v :: uint32)) :: byte) = of_nat (unat v div 2 ^ n mod 256)"
proof -
  have "(ucast (drop_bit n v) :: byte) = of_nat (unat (drop_bit n v))"
    by simp
  also have "\<dots> = of_nat (drop_bit n (unat v))"
    by (simp only: unat_drop_bit_eq)
  also have "\<dots> = of_nat (unat v div 2 ^ n)"
    by (simp only: drop_bit_eq_div)
  also have "\<dots> = of_nat (unat v div 2 ^ n mod 256)"
    by (simp add: word_of_nat_eq_iff take_bit_eq_mod)
  finally show ?thesis .
qed

lemma length_bytes: "length (bytes h) = 32"
  using bytes [of h] by simp

lemma list4_update:
  "[a, b, c, d][0 := x, 1 := y, 2 := z, 3 := w] = [x, y, z, w]"
  by (simp add: numeral_2_eq_2 numeral_3_eq_3)

lemma replicate4: "replicate 4 x = [x, x, x, x]"
  by (simp add: numeral_eq_Suc)

lemma serializeUint32_bytes:
  "serializeUint32 v =
     [ucast v, ucast (drop_bit 8 v), ucast (drop_bit 16 v), ucast (drop_bit 24 v)]"
  by (simp only: serializeUint32_def PutUint32_def Let_def replicate4 list4_update)

lemma le_bytes_4:
  "le_bytes 4 n = [of_nat (n mod 256), of_nat (n div 256 mod 256),
     of_nat (n div 256 div 256 mod 256), of_nat (n div 256 div 256 div 256 mod 256)]"
proof -
  have "(4::nat) = Suc (Suc (Suc (Suc 0)))"
    by simp
  then show ?thesis
    by (simp only: le_bytes.simps)
qed

lemma serializeUint32_le_bytes: "serializeUint32 v = le_bytes 4 (unat v)"
proof -
  have b0: "(ucast v :: byte) = of_nat (unat v mod 256)"
    using ucast_drop_bit_byte [of 0 v] by simp
  have b1: "(ucast (drop_bit 8 v) :: byte) = of_nat (unat v div 256 mod 256)"
    using ucast_drop_bit_byte [of 8 v] by simp
  have d2: "unat v div 256 div 256 = unat v div 2 ^ 16"
    using div_mult2_eq [of "unat v" 256 256] by simp
  have d3: "unat v div 256 div 256 div 256 = unat v div 2 ^ 24"
    using div_mult2_eq [of "unat v" 65536 256] d2 by simp
  have b2: "(ucast (drop_bit 16 v) :: byte) = of_nat (unat v div 256 div 256 mod 256)"
    by (simp only: d2 ucast_drop_bit_byte)
  have b3: "(ucast (drop_bit 24 v) :: byte) = of_nat (unat v div 256 div 256 div 256 mod 256)"
    by (simp only: d3 ucast_drop_bit_byte)
  show ?thesis
    by (simp only: serializeUint32_bytes le_bytes_4 b0 b1 b2 b3)
qed

lemma length_serializeUint32: "length (serializeUint32 v) = 4"
  by (simp only: serializeUint32_bytes) simp

lemma le_value_serializeUint32: "le_value (serializeUint32 v) = unat v"
proof -
  have "unat v < 256 ^ 4"
    using unsigned_less [of v] by simp
  then show ?thesis
    by (simp only: serializeUint32_le_bytes le_value_le_bytes)
qed

text \<open>
  C4: the serialized header is the concatenation, in declaration order and with nothing
  in between, of the version as 4 little-endian bytes, the 32 bytes of the previous
  block hash, the 32 bytes of the Merkle root, the timestamp as 4 little-endian bytes,
  the bytes of the difficulty target text as they are, and the nonce as 4 little-endian
  bytes; its length is 76 plus the length of the target text. Being a function of the
  header, the result is the same for equal headers.
\<close>

theorem SerializeBlockHeader_layout:
  "SerializeBlockHeader h =
     le_bytes 4 (unat (hdr_Version h)) @ bytes (PreviousBlockHash h) @ bytes (MerkleRoot h) @
     le_bytes 4 (unat (Timestamp h)) @ string_bytes (DifficultyTarget h) @
     le_bytes 4 (unat (Nonce h)) \<and>
   length (bytes (PreviousBlockHash h)) = 32 \<and> length (bytes (MerkleRoot h)) = 32 \<and>
   length (le_bytes 4 (unat (hdr_Version h))) = 4 \<and>
   le_value (le_bytes 4 (unat (hdr_Version h))) = unat (hdr_Version h) \<and>
   le_value (le_bytes 4 (unat (Timestamp h))) = unat (Timestamp h) \<and>
   le_value (le_bytes 4 (unat (Nonce h))) = unat (Nonce h) \<and>
   length (string_bytes (DifficultyTarget h)) = length (DifficultyTarget h) \<and>
   length (SerializeBlockHeader h) = 76 + length (DifficultyTarget h)"
proof -
  have layout: "SerializeBlockHeader h =
     le_bytes 4 (unat (hdr_Version h)) @ bytes (PreviousBlockHash h) @ bytes (MerkleRoot h) @
     le_bytes 4 (unat (Timestamp h)) @ string_bytes (DifficultyTarget h) @
     le_bytes 4 (unat (Nonce h))"
    by (simp add: SerializeBlockHeader_def Let_def serializeUint32_le_bytes)
  have len: "length (SerializeBlockHeader h) = 76 + length (DifficultyTarget h)"
    by (simp add: SerializeBlockHeader_def Let_def length_serializeUint32 length_bytes
        string_bytes_def)
  have dec: "le_value (le_bytes 4 (unat v)) = unat v" for v :: uint32
    using le_value_serializeUint32 [of v] by (simp only: serializeUint32_le_bytes)
  have l4: "length (le_bytes 4 (unat (hdr_Version h))) = 4"
    using length_serializeUint32 [of "hdr_Version h"] by (simp only: serializeUint32_le_bytes)
  have ls: "length (string_bytes (DifficultyTarget h)) = length (DifficultyTarget h)"
    by (simp add: string_bytes_def)
  show ?thesis
    by (intro conjI) (fact layout length_bytes l4 dec ls len)+
qed

text \<open>
  The model of \<open>sha256.Sum256\<close> on the test vectors of the standard: the digest of
  \<open>abc\<close>, and the double digest of the empty sequence.
\<close>

lemma sha256_abc:
  "EncodeToString (sha256 (string_bytes ''abc'')) =
     ''ba7816bf8f01cfea414140de5dae2223b00361a396177a9cb410ff61f20015ad''"
  by code_simp

lemma sha256_twice_empty:
  "EncodeToString (sha256 (sha256 [])) =
     ''5df6e0e2761359d30a8275058e299fcc0381534545f55cf43e41983f5d4c9456''"
  by code_simp

text \<open>
  C5: the header digest of a byte sequence is SHA-256 applied to the 32 raw bytes of the
  SHA-256 digest of the sequence, and it has 32 bytes.
\<close>

theorem HashBlockHeader_double:
  "HashBlockHeader b = Sum256 (bytes (Sum256 b)) \<and>
   bytes (HashBlockHeader b) = sha256 (sha256 b) \<and>
   length (sha256 b) = 32 \<and>
   length (bytes (HashBlockHeader b)) = 32"
proof -
  have len: "length (sha256 m) = 32" for m
    using length_bytes [of "Sum256 m"] by (simp only: Sum256.rep_eq)
  show ?thesis
    by (simp add: HashBlockHeader_def Let_def Sum256.rep_eq len)
qed

section \<open>Properties of the report writer\<close>

text \<open>
  C10: what the report writer does, the digest line included, does not depend on its
  \<open>hash\<close> argument: two calls with the same block and different hash arguments return
  the same result and leave the same file. The digest it writes is the one it computes
  from the header of the block.
\<close>

theorem WriteBlockToOutputFile_ignores_hash:
  "WriteBlockToOutputFile Marshal block hash s = WriteBlockToOutputFile Marshal block hash' s"
  by (simp add: WriteBlockToOutputFile_def)

section \<open>Properties of the loader\<close>

lemma HasSuffix_iff: "HasSuffix s suffix \<longleftrightarrow> (\<exists>p. s = p @ suffix)"
proof
  assume "HasSuffix s suffix"
  then have "s = take (length s - length suffix) s @ suffix"
    by (metis HasSuffix_def append_take_drop_id)
  then show "\<exists>p. s = p @ suffix" ..
next
  assume "\<exists>p. s = p @ suffix"
  then show "HasSuffix s suffix"
    by (auto simp: HasSuffix_def)
qed

lemma load_files_step:
  "load_files Unmarshal (entry # entries) acc =
     (if is_record_file entry
      then case decode_entry Unmarshal entry of
             Inl err \<Rightarrow> Inl err
           | Inr tx \<Rightarrow> load_files Unmarshal entries (acc @ [tx])
      else load_files Unmarshal entries acc)"
  by (simp add: is_record_file_def decode_entry_def split: option.splits)

lemma load_files_collect:
  "load_files Unmarshal entries acc =
     (case collect (map (decode_entry Unmarshal) (filter is_record_file entries)) of
        Inl err \<Rightarrow> Inl err
      | Inr txs \<Rightarrow> Inr (acc @ txs))"
proof (induction entries arbitrary: acc)
  case Nil
  show ?case by simp
next
  case (Cons entry entries)
  show ?case
  proof (cases "is_record_file entry")
    case False
    then show ?thesis
      by (simp only: load_files_step Cons.IH filter.simps if_False)
  next
    case True
    show ?thesis
    proof (cases "decode_entry Unmarshal entry")
      case (Inl err)
      with True show ?thesis
        by (simp add: load_files_step del: load_files.simps)
    next
      case (Inr tx)
      with True show ?thesis
        by (simp add: load_files_step Cons.IH del: load_files.simps split: sum.splits)
    qed
  qed
qed

lemma LoadTransactionsFromFolder_collect:
  "LoadTransactionsFromFolder Unmarshal (Some files) =
     collect (map (decode_entry Unmarshal) (filter is_record_file files))"
  by (simp add: LoadTransactionsFromFolder_def load_files_collect split: sum.splits)

lemma collect_all_Inr: "collect (map Inr xs) = Inr xs"
  by (induction xs) simp_all

lemma collect_first_Inl: "collect (map Inr xs @ Inl err # rs) = Inl err"
  by (induction xs) simp_all

text \<open>
  C8: the loader returns the decoded transactions of the record files in the order of
  the directory listing; an entry that is a directory or whose name does not end in
  \<open>.json\<close> is skipped and changes nothing; and when the record files before a malformed
  one all decode, the result is the decode error alone, without the transactions
  decoded so far.
\<close>

theorem LoadTransactionsFromFolder_spec:
  "(map (decode_entry Unmarshal) (filter is_record_file files) = map Inr txs \<longrightarrow>
      LoadTransactionsFromFolder Unmarshal (Some files) = Inr txs) \<and>
   (IsDir entry \<or> \<not> HasSuffix (Name entry) ''.json'' \<longrightarrow>
      LoadTransactionsFromFolder Unmarshal (Some (before @ entry # after)) =
      LoadTransactionsFromFolder Unmarshal (Some (before @ after))) \<and>
   (filter is_record_file files = good @ bad # rest \<and>
    map (decode_entry Unmarshal) good = map Inr txs \<and>
    ReadFile bad = Some data \<and> Unmarshal data = None \<longrightarrow>
      LoadTransactionsFromFolder Unmarshal (Some files) = Inl DecodeError)"
proof (intro conjI impI)
  assume "map (decode_entry Unmarshal) (filter is_record_file files) = map Inr txs"
  then show "LoadTransactionsFromFolder Unmarshal (Some files) = Inr txs"
    by (simp only: LoadTransactionsFromFolder_collect collect_all_Inr)
next
  assume "IsDir entry \<or> \<not> HasSuffix (Name entry) ''.json''"
  then have "\<not> is_record_file entry"
    by (auto simp: is_record_file_def)
  then show "LoadTransactionsFromFolder Unmarshal (Some (before @ entry # after)) =
      LoadTransactionsFromFolder Unmarshal (Some (before @ after))"
    by (simp add: LoadTransactionsFromFolder_collect)
next
  assume a: "filter is_record_file files = good @ bad # rest \<and>
    map (decode_entry Unmarshal) good = map Inr txs \<and>
    ReadFile bad = Some data \<and> Unmarshal data = None"
  then have "decode_entry Unmarshal bad = Inl DecodeError"
    by (simp add: decode_entry_def)
  with a have "map (decode_entry Unmarshal) (filter is_record_file files) =
      map Inr txs @ Inl DecodeError # map (decode_entry Unmarshal) rest"
    by simp
  then show "LoadTransactionsFromFolder Unmarshal (Some files) = Inl DecodeError"
    by (simp only: LoadTransactionsFromFolder_collect collect_first_Inl)
qed

theorem LoadTransactionsFromFolder_spec_witness:
  "LoadTransactionsFromFolder sample_Unmarshal (Some sample_folder) =
     Inr [mk_tx [5000] [4000], mk_tx [4000] [4000]] \<and>
   LoadTransactionsFromFolder sample_Unmarshal
     (Some (\<lparr>Name = ''sub.json'', IsDir = True, ReadFile = None\<rparr> # tl sample_folder)) =
   LoadTransactionsFromFolder sample_Unmarshal (Some (tl sample_folder)) \<and>
   LoadTransactionsFromFolder sample_Unmarshal
     (Some (sample_folder @ [\<lparr>Name = ''c.json'', IsDir = False, ReadFile = Some ''{''\<rparr>,
                             \<lparr>Name = ''d.json'', IsDir = False, ReadFile = Some ''A''\<rparr>])) =
     Inl DecodeError"
proof -
  let ?a = "\<lparr>Name = ''a.json'', IsDir = False, ReadFile = Some ''A''\<rparr>"
  let ?b = "\<lparr>Name = ''b.json'', IsDir = False, ReadFile = Some ''B''\<rparr>"
  let ?c = "\<lparr>Name = ''c.json'', IsDir = False, ReadFile = Some ''{''\<rparr>"
  let ?d = "\<lparr>Name = ''d.json'', IsDir = False, ReadFile = Some ''A''\<rparr>"
  let ?sub = "\<lparr>Name = ''sub.json'', IsDir = True, ReadFile = None\<rparr>"
  let ?txs = "[mk_tx [5000] [4000], mk_tx [4000] [4000]]"
  have sel: "filter is_record_file sample_folder = [?a, ?b]"
    by (simp add: sample_folder_def is_record_file_def HasSuffix_def)
  have sel': "filter is_record_file (sample_folder @ [?c, ?d]) = [?a, ?b] @ ?c # [?d]"
    by (simp add: sample_folder_def is_record_file_def HasSuffix_def)
  have dec: "map (decode_entry sample_Unmarshal) [?a, ?b] = map Inr ?txs"
    by (simp add: decode_entry_def sample_Unmarshal_def)
  have bad: "sample_Unmarshal ''{'' = None"
    by (simp add: sample_Unmarshal_def)
  have 1: "LoadTransactionsFromFolder sample_Unmarshal (Some sample_folder) = Inr ?txs"
    using LoadTransactionsFromFolder_spec
      [where Unmarshal = sample_Unmarshal and files = sample_folder and txs = ?txs]
      sel dec by simp
  have 2: "LoadTransactionsFromFolder sample_Unmarshal (Some (?sub # tl sample_folder)) =
      LoadTransactionsFromFolder sample_Unmarshal (Some (tl sample_folder))"
    using LoadTransactionsFromFolder_spec
      [where Unmarshal = sample_Unmarshal and entry = ?sub and before = "[]"
         and after = "tl sample_folder"]
    by simp
  have 3: "LoadTransactionsFromFolder sample_Unmarshal (Some (sample_folder @ [?c, ?d])) =
      Inl DecodeError"
    using LoadTransactionsFromFolder_spec
      [where Unmarshal = sample_Unmarshal and files = "sample_folder @ [?c, ?d]"
         and txs = ?txs and good = "[?a, ?b]" and bad = ?c and rest = "[?d]"
         and data = "''{''"]
      sel' dec bad by simp
  from 1 2 3 show ?thesis by simp
qed

section \<open>What the report writer emits\<close>

lemma file_Write_succeeds:
  "writes_succeed s \<Longrightarrow> file_Write data s = (Inr (), after_write data s)"
  by (cases "write_ok s") (auto simp: file_Write_def after_write_def writes_succeed_def)

lemma writes_succeed_after_write: "writes_succeed s \<Longrightarrow> writes_succeed (after_write data s)"
  by (cases "write_ok s") (auto simp: after_write_def writes_succeed_def)

lemma output_txt_after_write:
  "output_txt (after_write data s) = map_option (\<lambda>c. c @ data) (output_txt s)"
  by (simp add: after_write_def)

lemma write_txids_succeeds:
  assumes "writes_succeed s" and "\<forall>tx \<in> set txs. Vin tx \<noteq> []"
  shows "\<exists>s'. write_txids (Suc i) txs s = (Inr (), s') \<and>
           output_txt s' = map_option (\<lambda>c. c @ txid_lines txs) (output_txt s)"
  using assms
proof (induction txs arbitrary: s i)
  case Nil
  show ?case
    by (simp add: txid_lines_def option.map_ident)
next
  case (Cons tx txs)
  from Cons.prems obtain vin vins where vin: "Vin tx = vin # vins"
    by (cases "Vin tx") auto
  let ?s1 = "after_write (Txid vin @ [CHR 0x0A]) s"
  have w: "file_Write (Txid vin @ [CHR 0x0A]) s = (Inr (), ?s1)"
    using Cons.prems(1) by (rule file_Write_succeeds)
  have "writes_succeed ?s1"
    using Cons.prems(1) by (rule writes_succeed_after_write)
  moreover have "\<forall>tx \<in> set txs. Vin tx \<noteq> []"
    using Cons.prems(2) by simp
  ultimately obtain s' where s': "write_txids (Suc (Suc i)) txs ?s1 = (Inr (), s')"
      "output_txt s' = map_option (\<lambda>c. c @ txid_lines txs) (output_txt ?s1)"
    using Cons.IH [of ?s1 "Suc i"] by blast
  have step: "write_txids (Suc i) (tx # txs) s = write_txids (Suc (Suc i)) txs ?s1"
    by (simp add: vin w)
  have "output_txt s' = map_option (\<lambda>c. c @ txid_lines (tx # txs)) (output_txt s)"
    by (simp add: s'(2) output_txt_after_write txid_lines_def vin option.map_comp comp_def)
  with step s'(1) show ?case
    by simp
qed

lemma unat_nibbles:
  "unat (drop_bit 4 (v :: byte)) < 16" "unat (v AND 0x0f) < 16"
proof -
  have "unat v < 256"
    using unsigned_less [of v] by simp
  moreover have "unat (drop_bit 4 v) = drop_bit 4 (unat v)"
    by (simp only: unat_drop_bit_eq)
  ultimately show "unat (drop_bit 4 v) < 16"
    by (simp add: drop_bit_eq_div)
  have "unat (v AND 0x0f) \<le> unat (0x0f :: byte)"
    by (rule word_and_le1 [THEN word_le_nat_alt [THEN iffD1]])
  then show "unat (v AND 0x0f) < 16"
    by simp
qed

lemma EncodeToString_hex:
  "set (EncodeToString src) \<subseteq> set hextable"
  "length (EncodeToString src) = 2 * length src"
proof -
  have "hextable ! n \<in> set hextable" if "n < 16" for n
    using that by (intro nth_mem) (simp add: hextable_def)
  then show "set (EncodeToString src) \<subseteq> set hextable"
    using unat_nibbles by (auto simp: EncodeToString_def)
  show "length (EncodeToString src) = 2 * length src"
    by (induction src) (simp_all add: EncodeToString_def)
qed

text \<open>
  C6: for a block with its coinbase transaction at index 0 whose transactions all have
  at least one input, when the file can be created, \<open>json.Marshal\<close> succeeds and no
  write fails, the writer leaves in \<open>output.txt\<close> exactly: one line with the hexadecimal
  text (64 digits of \<open>hextable\<close>) of the double SHA-256 of the serialized
  header, one line with the coinbase transaction as \<open>json.Marshal\<close> renders it, and,
  for each further transaction in order, one line with the \<open>Txid\<close> of its first input.
\<close>

theorem WriteBlockToOutputFile_content:
  assumes "create_ok s" and "writes_succeed s"
    and "Transactions block = coinbase # rest"
    and "\<forall>tx \<in> set (Transactions block). Vin tx \<noteq> []"
    and "Marshal coinbase = Some rendered"
  shows "\<exists>s'. WriteBlockToOutputFile Marshal block hash s = (Inr (), s') \<and>
           output_txt s' =
             Some (EncodeToString (bytes (HashBlockHeader (SerializeBlockHeader (Header block))))
                   @ [CHR 0x0A] @ rendered @ [CHR 0x0A] @ txid_lines rest) \<and>
           length (EncodeToString
             (bytes (HashBlockHeader (SerializeBlockHeader (Header block))))) = 64 \<and>
           set (EncodeToString
             (bytes (HashBlockHeader (SerializeBlockHeader (Header block)))))
             \<subseteq> set hextable"
proof -
  let ?digest = "EncodeToString
    (bytes (Sum256 (bytes (Sum256 (SerializeBlockHeader (Header block))))))"
  let ?s1 = "s\<lparr>output_txt := Some []\<rparr>"
  let ?s2 = "after_write (?digest @ [CHR 0x0A]) ?s1"
  let ?s3 = "after_write rendered ?s2"
  let ?s4 = "after_write [CHR 0x0A] ?s3"
  have c: "os_Create s = (Inr (), ?s1)"
    using assms(1) by (simp add: os_Create_def)
  have ok1: "writes_succeed ?s1"
    using assms(2) by (simp add: writes_succeed_def)
  then have w1: "file_Write (?digest @ [CHR 0x0A]) ?s1 = (Inr (), ?s2)"
    by (rule file_Write_succeeds)
  have ok2: "writes_succeed ?s2"
    using ok1 by (rule writes_succeed_after_write)
  then have w2: "file_Write rendered ?s2 = (Inr (), ?s3)"
    by (rule file_Write_succeeds)
  have ok3: "writes_succeed ?s3"
    using ok2 by (rule writes_succeed_after_write)
  then have w3: "file_Write [CHR 0x0A] ?s3 = (Inr (), ?s4)"
    by (rule file_Write_succeeds)
  have ok4: "writes_succeed ?s4"
    using ok3 by (rule writes_succeed_after_write)
  have "\<forall>tx \<in> set rest. Vin tx \<noteq> []"
    using assms(3,4) by simp
  with ok4 obtain s' where s': "write_txids (Suc 0) rest ?s4 = (Inr (), s')"
      "output_txt s' = map_option (\<lambda>c. c @ txid_lines rest) (output_txt ?s4)"
    using write_txids_succeeds [of ?s4 rest 0] by blast
  have out4: "output_txt ?s4 = Some (?digest @ [CHR 0x0A] @ rendered @ [CHR 0x0A])"
    by (simp add: output_txt_after_write)
  have run: "WriteBlockToOutputFile Marshal block hash s = write_txids (Suc 0) rest ?s4"
    by (simp add: WriteBlockToOutputFile_def Let_def c w1 w2 w3 assms(3,5))
  have len: "length ?digest = 64"
    by (simp add: EncodeToString_hex(2) length_bytes)
  have hex: "set ?digest \<subseteq> set hextable"
    by (rule EncodeToString_hex(1))
  from run s' out4 len hex show ?thesis
    by (simp add: HashBlockHeader_def Let_def)
qed

theorem WriteBlockToOutputFile_content_witness:
  "\<exists>s'. WriteBlockToOutputFile (\<lambda>tx. Some ''{}'') sample_block zero_hash sample_fs = (Inr (), s') \<and>
     output_txt s' =
       Some (EncodeToString (bytes (HashBlockHeader (SerializeBlockHeader (main_header 7))))
             @ [CHR 0x0A] @ ''{}'' @ [CHR 0x0A] @ ''ab'' @ [CHR 0x0A])"
proof -
  have t: "Transactions sample_block = CreateCoinbaseTransaction # [mk_tx [5000] [4000]]"
    by (simp add: sample_block_def Transactions_assemble_block)
  have v: "\<forall>tx \<in> set (Transactions sample_block). Vin tx \<noteq> []"
    by (simp add: t CreateCoinbaseTransaction_def mk_tx_def)
  have c: "create_ok sample_fs"
    by (simp add: sample_fs_def)
  have w: "writes_succeed sample_fs"
    by (simp add: sample_fs_def writes_succeed_def)
  have m: "(\<lambda>tx. Some ''{}'') CreateCoinbaseTransaction = Some ''{}''"
    by simp
  have h: "Header sample_block = main_header 7"
    by (simp add: sample_block_def Header_assemble_block)
  have l: "txid_lines [mk_tx [5000] [4000]] = ''ab'' @ [CHR 0x0A]"
    by (simp add: txid_lines_def mk_tx_def mk_input_def)
  from WriteBlockToOutputFile_content [OF c w t v m, of zero_hash]
  show ?thesis
    by (simp only: h l) blast
qed

text \<open>
  A block without any transaction is outside the claim above: the writer creates the
  file, writes the digest line and then panics at \<open>block.Transactions[0]\<close>. The block
  that \<open>main\<close> assembles always has the coinbase transaction.
\<close>

lemma WriteBlockToOutputFile_no_transactions:
  assumes "create_ok s" and "writes_succeed s" and "Transactions block = []"
  shows "WriteBlockToOutputFile Marshal block hash s =
     (Inl IndexOutOfRange,
      after_write
        (EncodeToString (bytes (Sum256 (bytes (Sum256 (SerializeBlockHeader (Header block))))))
         @ [CHR 0x0A])
        (s\<lparr>output_txt := Some []\<rparr>))"
proof -
  let ?digest = "EncodeToString
    (bytes (Sum256 (bytes (Sum256 (SerializeBlockHeader (Header block))))))"
  let ?s1 = "s\<lparr>output_txt := Some []\<rparr>"
  have c: "os_Create s = (Inr (), ?s1)"
    using assms(1) by (simp add: os_Create_def)
  have "writes_succeed ?s1"
    using assms(2) by (simp add: writes_succeed_def)
  then have w1: "file_Write (?digest @ [CHR 0x0A]) ?s1 =
      (Inr (), after_write (?digest @ [CHR 0x0A]) ?s1)"
    by (rule file_Write_succeeds)
  show ?thesis
    by (simp add: WriteBlockToOutputFile_def Let_def c w1 assms(3))
qed

section \<open>The first input of every processed transaction\<close>

lemma file_Write_no_panic: "fst (file_Write data s) \<noteq> Inl IndexOutOfRange"
  by (simp add: file_Write_def split: list.splits)

lemma write_txids_no_panic:
  "\<forall>tx \<in> set txs. Vin tx \<noteq> [] \<Longrightarrow> fst (write_txids (Suc i) txs s) \<noteq> Inl IndexOutOfRange"
proof (induction txs arbitrary: s i)
  case Nil
  show ?case by simp
next
  case (Cons tx txs)
  from Cons.prems obtain vin vins where vin: "Vin tx = vin # vins"
    by (cases "Vin tx") auto
  obtain r s1 where w: "file_Write (Txid vin @ [CHR 0x0A]) s = (r, s1)"
    by (cases "file_Write (Txid vin @ [CHR 0x0A]) s")
  show ?case
  proof (cases r)
    case (Inl err)
    then have "err \<noteq> IndexOutOfRange"
      using file_Write_no_panic [of "Txid vin @ [CHR 0x0A]" s] w by auto
    with Inl show ?thesis
      by (simp add: vin w)
  next
    case (Inr u)
    have "fst (write_txids (Suc (Suc i)) txs s1) \<noteq> Inl IndexOutOfRange"
      using Cons.prems by (intro Cons.IH) simp
    with Inr show ?thesis
      by (simp add: vin w)
  qed
qed

lemma WriteBlockToOutputFile_no_panic:
  assumes "Transactions block = coinbase # rest" and "\<forall>tx \<in> set rest. Vin tx \<noteq> []"
  shows "fst (WriteBlockToOutputFile Marshal block hash s) \<noteq> Inl IndexOutOfRange"
proof -
  have ids: "fst (write_txids 0 (Transactions block) s') \<noteq> Inl IndexOutOfRange" for s'
    using write_txids_no_panic [OF assms(2), of 0 s'] by (simp add: assms(1))
  have wr: "file_Write data s' = (Inl err, s'') \<Longrightarrow> err \<noteq> IndexOutOfRange"
    for data s' err s''
    using file_Write_no_panic [of data s'] by auto
  show ?thesis
    using ids wr
    by (auto simp: WriteBlockToOutputFile_def os_Create_def Let_def assms(1)
        split: prod.splits sum.splits option.splits if_splits)
qed

lemma validate_all_no_panic:
  "\<forall>tx \<in> set txs. Vin tx \<noteq> [] \<Longrightarrow>
   \<exists>console'. validate_all txs acc console =
     (Inr (acc @ filter ValidateTransaction txs), console')"
proof (induction txs arbitrary: acc console)
  case Nil
  show ?case by simp
next
  case (Cons tx txs)
  have rest: "\<forall>tx \<in> set txs. Vin tx \<noteq> []"
    using Cons.prems by simp
  show ?case
  proof (cases "ValidateTransaction tx")
    case True
    obtain c where "validate_all txs (acc @ [tx]) console =
        (Inr ((acc @ [tx]) @ filter ValidateTransaction txs), c)"
      using Cons.IH [OF rest, of "acc @ [tx]" console] by blast
    with True show ?thesis
      by simp
  next
    case False
    from Cons.prems obtain vin vins where vin: "Vin tx = vin # vins"
      by (cases "Vin tx") auto
    obtain c where "validate_all txs acc (console @ [''Invalid transaction '' @ Txid vin]) =
        (Inr (acc @ filter ValidateTransaction txs), c)"
      using Cons.IH [OF rest, of acc "console @ [''Invalid transaction '' @ Txid vin]"]
      by blast
    with False vin show ?thesis
      by simp
  qed
qed

lemma validate_all_rejected_no_input:
  "\<not> ValidateTransaction tx \<Longrightarrow> Vin tx = [] \<Longrightarrow>
   validate_all (tx # txs) acc console = (Inl IndexOutOfRange, console)"
  by simp

lemma write_txids_no_input:
  "Vin tx = [] \<Longrightarrow> write_txids (Suc i) (tx # txs) s = (Inl IndexOutOfRange, s)"
  by simp

text \<open>
  C9: \<open>main\<close> reads \<open>tx.Vin[0]\<close> of every rejected transaction when it reports it, and
  the writer reads it of every transaction after the coinbase transaction. When every
  loaded transaction has at least one input, the run never ends in the index panic.
  Without that, a transaction with no input brings the panic at either place: one with
  no input and no output is rejected and panics in \<open>main\<close>; one with no input and a
  single output of value -1 is accepted and panics in the writer, once the file is
  created and the first two lines are written.
\<close>

theorem first_input_in_bounds:
  "((\<forall>tx \<in> set transactions. Vin tx \<noteq> []) \<longrightarrow>
      fst (main_run Marshal Sizeof now (Inr transactions) s) \<noteq> Inl IndexOutOfRange) \<and>
   Vin (mk_tx [] []) = [] \<and>
   fst (main_run Marshal Sizeof now (Inr [mk_tx [] []]) s) = Inl IndexOutOfRange \<and>
   Vin (mk_tx [] [- 1]) = [] \<and>
   (create_ok s \<and> writes_succeed s \<and> Marshal CreateCoinbaseTransaction = Some rendered \<longrightarrow>
      fst (main_run Marshal Sizeof now (Inr [mk_tx [] [- 1]]) s) = Inl IndexOutOfRange)"
proof (intro conjI impI)
  assume all: "\<forall>tx \<in> set transactions. Vin tx \<noteq> []"
  then obtain console where v: "validate_all transactions [] [] =
      (Inr (filter ValidateTransaction transactions), console)"
    using validate_all_no_panic [of transactions "[]" "[]"] by auto
  let ?block = "assemble_block Sizeof now (filter ValidateTransaction transactions)"
  have "\<forall>tx \<in> set (filter ValidateTransaction transactions). Vin tx \<noteq> []"
    using all by simp
  then have "fst (WriteBlockToOutputFile Marshal ?block
      (HashBlockHeader (SerializeBlockHeader (Header ?block))) s) \<noteq> Inl IndexOutOfRange"
    by (intro WriteBlockToOutputFile_no_panic [OF Transactions_assemble_block])
  then show "fst (main_run Marshal Sizeof now (Inr transactions) s) \<noteq> Inl IndexOutOfRange"
    by (auto simp: main_run_def v Let_def split: prod.splits sum.splits)
next
  show "Vin (mk_tx [] []) = []"
    by (simp add: mk_tx_def)
next
  have nv: "\<not> ValidateTransaction (mk_tx [] [])"
    by (simp add: ValidateTransaction_def mk_tx_def)
  have ni: "Vin (mk_tx [] []) = []"
    by (simp add: mk_tx_def)
  from nv ni have "validate_all [mk_tx [] []] [] [] = (Inl IndexOutOfRange, [])"
    by (rule validate_all_rejected_no_input)
  then show "fst (main_run Marshal Sizeof now (Inr [mk_tx [] []]) s) = Inl IndexOutOfRange"
    by (simp add: main_run_def)
next
  show "Vin (mk_tx [] [- 1]) = []"
    by (simp add: mk_tx_def)
next
  assume a: "create_ok s \<and> writes_succeed s \<and> Marshal CreateCoinbaseTransaction = Some rendered"
  let ?tx = "mk_tx [] [- 1]"
  let ?block = "assemble_block Sizeof now [?tx]"
  let ?digest = "EncodeToString
    (bytes (Sum256 (bytes (Sum256 (SerializeBlockHeader (Header ?block))))))"
  let ?s1 = "s\<lparr>output_txt := Some []\<rparr>"
  let ?s2 = "after_write (?digest @ [CHR 0x0A]) ?s1"
  let ?s3 = "after_write rendered ?s2"
  let ?s4 = "after_write [CHR 0x0A] ?s3"
  have acc: "ValidateTransaction ?tx"
    by (simp add: ValidateTransaction_def mk_tx_def mk_output_def word_sless_alt)
  have noin: "Vin ?tx = []"
    by (simp add: mk_tx_def)
  have v: "validate_all [?tx] [] [] = (Inr [?tx], [])"
    using acc by simp
  have t: "Transactions ?block = CreateCoinbaseTransaction # [?tx]"
    by (rule Transactions_assemble_block)
  have c: "os_Create s = (Inr (), ?s1)"
    using a by (simp add: os_Create_def)
  have ok1: "writes_succeed ?s1"
    using a by (simp add: writes_succeed_def)
  then have w1: "file_Write (?digest @ [CHR 0x0A]) ?s1 = (Inr (), ?s2)"
    by (rule file_Write_succeeds)
  have ok2: "writes_succeed ?s2"
    using ok1 by (rule writes_succeed_after_write)
  then have w2: "file_Write rendered ?s2 = (Inr (), ?s3)"
    by (rule file_Write_succeeds)
  have ok3: "writes_succeed ?s3"
    using ok2 by (rule writes_succeed_after_write)
  then have w3: "file_Write [CHR 0x0A] ?s3 = (Inr (), ?s4)"
    by (rule file_Write_succeeds)
  have ids: "write_txids (Suc 0) [?tx] ?s4 = (Inl IndexOutOfRange, ?s4)"
    using noin by (rule write_txids_no_input)
  have "WriteBlockToOutputFile Marshal ?block hash s = (Inl IndexOutOfRange, ?s4)" for hash
    using a by (simp add: WriteBlockToOutputFile_def Let_def c w1 w2 w3 t noin)
  then show "fst (main_run Marshal Sizeof now (Inr [?tx]) s) = Inl IndexOutOfRange"
    by (simp add: main_run_def acc Let_def)
qed

theorem first_input_in_bounds_witness:
  "fst (main_run (\<lambda>tx. Some ''{}'') (\<lambda>tx. 56) 7
         (Inr [mk_tx [5000] [4000], mk_tx [4000] [4000]]) sample_fs) \<noteq> Inl IndexOutOfRange \<and>
   fst (main_run (\<lambda>tx. Some ''{}'') (\<lambda>tx. 56) 7 (Inr [mk_tx [] [- 1]]) sample_fs) =
     Inl IndexOutOfRange"
proof -
  have v: "\<forall>tx \<in> set [mk_tx [5000] [4000], mk_tx [4000] [4000]]. Vin tx \<noteq> []"
    by (simp add: mk_tx_def)
  have e: "create_ok sample_fs \<and> writes_succeed sample_fs \<and>
      (\<lambda>tx. Some ''{}'') CreateCoinbaseTransaction = Some ''{}''"
    by (simp add: sample_fs_def writes_succeed_def)
  from v e first_input_in_bounds
    [where transactions = "[mk_tx [5000] [4000], mk_tx [4000] [4000]]"
       and Marshal = "\<lambda>tx. Some ''{}''" and Sizeof = "\<lambda>tx. 56" and now = 7
       and s = sample_fs and rendered = "''{}''"]
  show ?thesis
    by blast
qed

end
